theory Spec2Isabelle
  imports Main
begin

section \<open>JavaScript values\<close>

text \<open>
  A JavaScript string is a sequence of UTF-16 code units. The bracket characters
  U+3010 and U+3011 and the en dash U+2013 that the program looks for are single code
  units above the byte range, so a string is modelled as the list of its code units.
\<close>

type_synonym jstring = "nat list"

definition asc :: "string \<Rightarrow> jstring" where
  \<comment> \<open>The code units of an ASCII literal of the source.\<close>
  "asc s = map of_char s"

text \<open>
  The values the program handles are parsed JSON, plus \<open>undefined\<close> for the result of
  reading a property that is not there. Numbers are modelled as integers (identifiers and
  Unix timestamps in the safe integer range; fractions, infinities and NaN are not
  modelled). An object is the list of its own properties in enumeration order.
\<close>

datatype json =
    JUndef
  | JNull
  | JBool bool
  | JNum int
  | JStr jstring
  | JArr "json list"
  | JObj "(jstring \<times> json) list"

datatype exn = TypeError | SyntaxError | URIError | NetworkError | HttpError nat

fun truthy :: "json \<Rightarrow> bool" where
  "truthy JUndef = False"
| "truthy JNull = False"
| "truthy (JBool b) = b"
| "truthy (JNum n) = (n \<noteq> 0)"
| "truthy (JStr s) = (s \<noteq> [])"
| "truthy (JArr xs) = True"
| "truthy (JObj kvs) = True"

fun oget :: "json \<Rightarrow> jstring \<Rightarrow> json" where
  \<comment> \<open>\<open>v?.k\<close>, for the property names the program reads: \<open>text\<close>, \<open>value\<close>, \<open>type\<close>,
      \<open>content\<close>, \<open>role\<close>, \<open>status\<close> and the like, none of which is a property of a
      string, a number, a boolean or an array.\<close>
  "oget (JObj kvs) k = (case map_of kvs k of Some v \<Rightarrow> v | None \<Rightarrow> JUndef)"
| "oget v k = JUndef"

definition sget :: "json \<Rightarrow> jstring \<Rightarrow> exn + json" where
  \<comment> \<open>\<open>v.k\<close>: reading a property of \<open>null\<close> or \<open>undefined\<close> throws a TypeError.\<close>
  "sget v k = (if v = JNull \<or> v = JUndef then Inl TypeError else Inr (oget v k))"

definition or_else :: "json \<Rightarrow> json \<Rightarrow> json" where
  \<comment> \<open>\<open>a || b\<close>\<close>
  "or_else a b = (if truthy a then a else b)"

definition find_text_part :: "json list \<Rightarrow> json" where
  \<comment> \<open>\<open>parts.find(c => c?.type === "text")\<close>\<close>
  "find_text_part parts =
     (case find (\<lambda>c. oget c (asc ''type'') = JStr (asc ''text'')) parts of
        Some t \<Rightarrow> t
      | None \<Rightarrow> JUndef)"

section \<open>Strings and regular expressions\<close>

definition is_space :: "nat \<Rightarrow> bool" where
  \<comment> \<open>White space and line terminators: what \<open>trim\<close> removes and \<open>\s\<close> matches.\<close>
  "is_space c = (c \<in> {0x09, 0x0A, 0x0B, 0x0C, 0x0D, 0x20, 0xA0, 0x1680, 0x2028, 0x2029,
                       0x202F, 0x205F, 0x3000, 0xFEFF} \<or> (0x2000 \<le> c \<and> c \<le> 0x200A))"

definition trim :: "jstring \<Rightarrow> jstring" where
  "trim s = rev (dropWhile is_space (rev (dropWhile is_space s)))"

definition is_hspace :: "nat \<Rightarrow> bool" where
  \<comment> \<open>The class \<open>[ \t]\<close>.\<close>
  "is_hspace c = (c = 0x20 \<or> c = 0x09)"

definition is_word :: "nat \<Rightarrow> bool" where
  \<comment> \<open>The class \<open>\w\<close>: \<open>[A-Za-z0-9_]\<close>.\<close>
  "is_word c = ((0x41 \<le> c \<and> c \<le> 0x5A) \<or> (0x61 \<le> c \<and> c \<le> 0x7A) \<or>
                (0x30 \<le> c \<and> c \<le> 0x39) \<or> c = 0x5F)"

definition boundary :: "nat option \<Rightarrow> jstring \<Rightarrow> bool" where
  \<comment> \<open>\<open>\b\<close> between the code unit before the position and the text from it on: exactly
      one side is a word character (the ends of the input count as none).\<close>
  "boundary prev s =
     ((case prev of None \<Rightarrow> False | Some p \<Rightarrow> is_word p) \<noteq>
      (case s of [] \<Rightarrow> False | c # cs \<Rightarrow> is_word c))"

definition canon :: "nat \<Rightarrow> nat" where
  \<comment> \<open>Canonicalize of a regular expression with the \<open>i\<close> flag and without \<open>u\<close>: the upper
      case of the code unit, except that a code unit outside ASCII never maps into ASCII.
      The patterns of this program hold ASCII letters only, for which it is enough to
      fold \<open>a-z\<close> onto \<open>A-Z\<close>.\<close>
  "canon c = (if 0x61 \<le> c \<and> c \<le> 0x7A then c - 0x20 else c)"

definition lit_ci :: "jstring \<Rightarrow> jstring \<Rightarrow> jstring option" where
  \<comment> \<open>A literal of a pattern with the \<open>i\<close> flag at the head of the text; the result is
      the text behind it.\<close>
  "lit_ci p s =
     (if length p \<le> length s \<and> map canon (take (length p) s) = map canon p
      then Some (drop (length p) s) else None)"

definition spaces :: "jstring \<Rightarrow> jstring" where
  \<comment> \<open>\<open>\s*\<close> before a code unit that is not white space: the greedy run is the only
      way to match.\<close>
  "spaces s = dropWhile is_space s"

text \<open>
  \<open>s.replace(re, rep)\<close> for a global regular expression and a constant replacement. The
  matcher \<open>m prev s\<close> tries the expression at one position: \<open>s\<close> is the text from that
  position on, \<open>prev\<close> the code unit before it (\<open>None\<close> at the start of the input), and
  the result is the length of the match. The scan goes left to right; after a match it
  goes on behind the match, and an empty match moves one code unit on.
\<close>

function replaceAll ::
  "(nat option \<Rightarrow> jstring \<Rightarrow> nat option) \<Rightarrow> jstring \<Rightarrow> nat option \<Rightarrow> jstring \<Rightarrow> jstring" where
  "replaceAll m rep prev s =
     (case m prev s of
        None \<Rightarrow> (case s of [] \<Rightarrow> [] | c # cs \<Rightarrow> c # replaceAll m rep (Some c) cs)
      | Some n \<Rightarrow>
          (if n = 0 \<or> s = [] then
             (case s of [] \<Rightarrow> rep | c # cs \<Rightarrow> rep @ c # replaceAll m rep (Some c) cs)
           else rep @ replaceAll m rep (Some (s ! (min n (length s) - 1))) (drop n s)))"
  by pat_completeness auto
termination
  by (relation "measure (\<lambda>(m, rep, prev, s). length s)") auto

declare replaceAll.simps [simp del]

fun occurs :: "(nat option \<Rightarrow> jstring \<Rightarrow> nat option) \<Rightarrow> nat option \<Rightarrow> jstring \<Rightarrow> bool" where
  \<comment> \<open>Whether the expression matches at some position from here on (\<open>re.test\<close>, and
      whether \<open>replace\<close> calls its callback at all).\<close>
  "occurs m prev [] = (m prev [] \<noteq> None)"
| "occurs m prev (c # cs) = (m prev (c # cs) \<noteq> None \<or> occurs m (Some c) cs)"

definition m_hspaces :: "nat option \<Rightarrow> jstring \<Rightarrow> nat option" where
  \<comment> \<open>\<open>[ \t]{2,}\<close>: greedy, the whole run of spaces and tabs when it has at least two.\<close>
  "m_hspaces prev s =
     (let n = length (takeWhile is_hspace s) in if 2 \<le> n then Some n else None)"

definition m_newlines :: "nat option \<Rightarrow> jstring \<Rightarrow> nat option" where
  \<comment> \<open>\<open>\n{3,}\<close>\<close>
  "m_newlines prev s =
     (let n = length (takeWhile (\<lambda>c. c = 0x0A) s) in if 3 \<le> n then Some n else None)"

subsection \<open>String conversion\<close>

function dec_nat :: "nat \<Rightarrow> jstring" where
  "dec_nat n = (if n < 10 then [0x30 + n] else dec_nat (n div 10) @ [0x30 + n mod 10])"
  by pat_completeness auto
termination
  by (relation "measure (\<lambda>n. n)") auto

declare dec_nat.simps [simp del]

definition dec_int :: "int \<Rightarrow> jstring" where
  "dec_int i = (if i < 0 then 0x2D # dec_nat (nat (- i)) else dec_nat (nat i))"

fun join :: "jstring \<Rightarrow> jstring list \<Rightarrow> jstring" where
  "join sep [] = []"
| "join sep [x] = x"
| "join sep (x # y # ys) = x @ sep @ join sep (y # ys)"

fun to_string :: "json \<Rightarrow> jstring" where
  \<comment> \<open>\<open>String(v)\<close>; an array joins its elements with commas, \<open>null\<close> and \<open>undefined\<close>
      elements as empty strings.\<close>
  "to_string JUndef = asc ''undefined''"
| "to_string JNull = asc ''null''"
| "to_string (JBool b) = (if b then asc ''true'' else asc ''false'')"
| "to_string (JNum n) = dec_int n"
| "to_string (JStr s) = s"
| "to_string (JArr xs) =
     join (asc '','') (map (\<lambda>x. if x = JNull \<or> x = JUndef then [] else to_string x) xs)"
| "to_string (JObj kvs) = asc ''[object Object]''"

definition is_high :: "nat \<Rightarrow> bool" where
  "is_high c = (0xD800 \<le> c \<and> c \<le> 0xDBFF)"

definition is_low :: "nat \<Rightarrow> bool" where
  "is_low c = (0xDC00 \<le> c \<and> c \<le> 0xDFFF)"

fun well_formed :: "jstring \<Rightarrow> bool" where
  \<comment> \<open>No lone surrogate: what \<open>encodeURIComponent\<close> needs, or it throws a URIError.\<close>
  "well_formed [] = True"
| "well_formed [c] = (\<not> is_high c \<and> \<not> is_low c)"
| "well_formed (c # d # cs) =
     (if is_high c then is_low d \<and> well_formed cs
      else \<not> is_low c \<and> well_formed (d # cs))"

section \<open>The proxy: text normalisation\<close>

subsection \<open>extractUserText\<close>

definition nonblank_str :: "json \<Rightarrow> bool" where
  \<comment> \<open>\<open>typeof v === "string" && v.trim()\<close>\<close>
  "nonblank_str v = (case v of JStr s \<Rightarrow> trim s \<noteq> [] | _ \<Rightarrow> False)"

definition trimmed :: "json \<Rightarrow> jstring" where
  \<comment> \<open>\<open>v.trim()\<close> of a string\<close>
  "trimmed v = (case v of JStr s \<Rightarrow> trim s | _ \<Rightarrow> [])"

definition legacy_content :: "json \<Rightarrow> json option" where
  \<comment> \<open>\<open>msgs[0]?.content\<close> for \<open>msgs = body.payload?.thread?.messages\<close>, when \<open>msgs\<close> is a
      non-empty array.\<close>
  "legacy_content body =
     (case oget (oget (oget body (asc ''payload'')) (asc ''thread'')) (asc ''messages'') of
        JArr (m0 # ms) \<Rightarrow> Some (oget m0 (asc ''content''))
      | _ \<Rightarrow> None)"

definition part_value :: "json list \<Rightarrow> json" where
  \<comment> \<open>\<open>t?.text?.value || t?.text || t?.value\<close> for the first part typed \<open>"text"\<close>\<close>
  "part_value parts =
     (let t = find_text_part parts in
      or_else (or_else (oget (oget t (asc ''text'')) (asc ''value'')) (oget t (asc ''text'')))
              (oget t (asc ''value'')))"

definition extractUserText :: "json \<Rightarrow> exn + jstring" where
  "extractUserText body0 =
     (let body = (if body0 = JUndef then JObj [] else body0) in
      if body = JNull then Inl TypeError
      else if nonblank_str (oget body (asc ''text'')) then Inr (trimmed (oget body (asc ''text'')))
      else if nonblank_str (oget body (asc ''message'')) then Inr (trimmed (oget body (asc ''message'')))
      else if nonblank_str (oget body (asc ''input'')) then Inr (trimmed (oget body (asc ''input'')))
      else
        (case legacy_content body of
           None \<Rightarrow> Inr []
         | Some content \<Rightarrow>
             if nonblank_str content then Inr (trimmed content)
             else if nonblank_str (oget content (asc ''text''))
               then Inr (trimmed (oget content (asc ''text'')))
             else
               (case content of
                  JArr parts \<Rightarrow>
                    (let v = part_value parts in
                     if nonblank_str v then Inr (trimmed v) else Inr [])
                | _ \<Rightarrow> Inr [])))"

text \<open>
  The priority order as the specification words it: eight candidates, of which the first
  that is a string with something left after trimming is returned, trimmed.
\<close>

definition spec_candidates :: "json \<Rightarrow> json list" where
  "spec_candidates body =
     (let content = (case legacy_content body of Some c \<Rightarrow> c | None \<Rightarrow> JUndef);
          t = (case content of JArr parts \<Rightarrow> find_text_part parts | _ \<Rightarrow> JUndef)
      in [oget body (asc ''text''), oget body (asc ''message''), oget body (asc ''input''),
          content, oget content (asc ''text''),
          oget (oget t (asc ''text'')) (asc ''value''), oget t (asc ''text''),
          oget t (asc ''value'')])"

definition first_nonblank :: "json list \<Rightarrow> jstring" where
  "first_nonblank cs = (case find nonblank_str cs of Some v \<Rightarrow> trimmed v | None \<Rightarrow> [])"

definition extractUserText_spec :: "json \<Rightarrow> jstring" where
  "extractUserText_spec body = first_nonblank (spec_candidates body)"

subsection \<open>stripAgentCitations\<close>

definition m_citation :: "nat option \<Rightarrow> jstring \<Rightarrow> nat option" where
  \<comment> \<open>U+3010, \<open>[\s\S]*?\<close>, U+3011: an opening bracket, lazily up to the first closing
      one behind it.\<close>
  "m_citation prev s =
     (case s of
        [] \<Rightarrow> None
      | c # cs \<Rightarrow>
          if c = 0x3010 \<and> 0x3011 \<in> set cs
          then Some (length (takeWhile (\<lambda>d. d \<noteq> 0x3011) cs) + 2)
          else None)"

definition stripAgentCitations_str :: "jstring \<Rightarrow> jstring" where
  "stripAgentCitations_str text =
     trim (replaceAll m_hspaces [0x20] None (replaceAll m_citation [] None text))"

definition stripAgentCitations :: "json \<Rightarrow> exn + jstring" where
  \<comment> \<open>The parameter defaults to the empty string; a value that is not a string has no
      \<open>replace\<close> method, and the call throws.\<close>
  "stripAgentCitations text =
     (case text of
        JUndef \<Rightarrow> Inr (stripAgentCitations_str [])
      | JStr s \<Rightarrow> Inr (stripAgentCitations_str s)
      | _ \<Rightarrow> Inl TypeError)"

text \<open>
  Collapsing runs of horizontal white space as the specification words it: a run of two
  or more spaces and tabs becomes one space.
\<close>

function collapse_runs :: "jstring \<Rightarrow> jstring" where
  "collapse_runs [] = []"
| "collapse_runs (c # cs) =
     (if is_hspace c \<and> cs \<noteq> [] \<and> is_hspace (hd cs)
      then 0x20 # collapse_runs (dropWhile is_hspace cs)
      else c # collapse_runs cs)"
  by pat_completeness auto
termination
  by (relation "measure length") (auto simp: length_dropWhile_le less_Suc_eq_le)

text \<open>
  The candidates as the code orders them: the five direct ones, then the one value that
  the \<open>||\<close> chain picks from the first part typed \<open>"text"\<close>.
\<close>

definition candidates :: "json \<Rightarrow> json list" where
  "candidates body =
     (let content = (case legacy_content body of Some c \<Rightarrow> c | None \<Rightarrow> JUndef)
      in [oget body (asc ''text''), oget body (asc ''message''), oget body (asc ''input''),
          content, oget content (asc ''text''),
          (case content of JArr parts \<Rightarrow> part_value parts | _ \<Rightarrow> JUndef)])"

section \<open>The proxy: endpoints\<close>

subsection \<open>Projections\<close>

definition projectRun :: "json \<Rightarrow> exn + json" where
  \<comment> \<open>The parameter defaults to \<open>{}\<close>; reading a property of \<open>null\<close> throws.\<close>
  "projectRun r0 =
     (let r = (if r0 = JUndef then JObj [] else r0) in
      if r = JNull then Inl TypeError
      else Inr (JObj [(asc ''id'', oget r (asc ''id'')),
                      (asc ''status'', oget r (asc ''status'')),
                      (asc ''thread_id'', oget r (asc ''thread_id'')),
                      (asc ''created_at'', oget r (asc ''created_at'')),
                      (asc ''started_at'', oget r (asc ''started_at'')),
                      (asc ''completed_at'', oget r (asc ''completed_at''))]))"

definition text_content :: "jstring \<Rightarrow> json" where
  \<comment> \<open>\<open>[{type: "text", text: {value: txt}}]\<close>\<close>
  "text_content txt =
     JArr [JObj [(asc ''type'', JStr (asc ''text'')),
                 (asc ''text'', JObj [(asc ''value'', JStr txt)])]]"

definition message_text :: "json \<Rightarrow> json" where
  \<comment> \<open>The value of \<open>txt\<close> before it is scrubbed, for the content of one message.\<close>
  "message_text content =
     (case content of
        JArr parts \<Rightarrow>
          or_else (oget (oget (find_text_part parts) (asc ''text'')) (asc ''value'')) (JStr [])
      | _ \<Rightarrow>
          if truthy (oget (oget content (asc ''text'')) (asc ''value''))
          then oget (oget content (asc ''text'')) (asc ''value'')
          else (case oget content (asc ''value'') of JStr s \<Rightarrow> JStr s | _ \<Rightarrow> JStr []))"

definition project_message :: "json \<Rightarrow> exn + json" where
  \<comment> \<open>The callback of the \<open>map\<close> in projectMsgList.\<close>
  "project_message m =
     (if m = JNull \<or> m = JUndef then Inl TypeError
      else
        (case stripAgentCitations (message_text (oget m (asc ''content''))) of
           Inl e \<Rightarrow> Inl e
         | Inr txt \<Rightarrow>
             Inr (JObj [(asc ''role'', oget m (asc ''role'')),
                        (asc ''created_at'', oget m (asc ''created_at'')),
                        (asc ''content'', text_content txt)])))"

fun map_exn :: "('a \<Rightarrow> exn + 'b) \<Rightarrow> 'a list \<Rightarrow> exn + 'b list" where
  \<comment> \<open>\<open>map\<close> with a callback that may throw: the first exception ends it.\<close>
  "map_exn f [] = Inr []"
| "map_exn f (x # xs) =
     (case f x of
        Inl e \<Rightarrow> Inl e
      | Inr y \<Rightarrow> (case map_exn f xs of Inl e \<Rightarrow> Inl e | Inr ys \<Rightarrow> Inr (y # ys)))"

definition projectMsgList :: "json \<Rightarrow> exn + json" where
  \<comment> \<open>\<open>(j.data || []).map(...)\<close>: a truthy \<open>data\<close> that is not an array has no \<open>map\<close>.\<close>
  "projectMsgList j0 =
     (let j = (if j0 = JUndef then JObj [] else j0) in
      if j = JNull then Inl TypeError
      else
        (case or_else (oget j (asc ''data'')) (JArr []) of
           JArr ms \<Rightarrow>
             (case map_exn project_message ms of
                Inl e \<Rightarrow> Inl e
              | Inr out \<Rightarrow> Inr (JObj [(asc ''data'', JArr out)]))
         | _ \<Rightarrow> Inl TypeError))"

definition project_thread_run :: "json \<Rightarrow> exn + json" where
  \<comment> \<open>The object that the threads-runs handler answers with.\<close>
  "project_thread_run b =
     (if b = JNull \<or> b = JUndef then Inl TypeError
      else Inr (JObj
        [(asc ''thread'', JObj [(asc ''id'',
            or_else (or_else (oget b (asc ''thread_id''))
                             (oget (oget b (asc ''thread'')) (asc ''id''))) JNull)]),
         (asc ''run'', JObj [(asc ''id'', oget b (asc ''id'')),
                             (asc ''status'', oget b (asc ''status'')),
                             (asc ''thread_id'', oget b (asc ''thread_id'')),
                             (asc ''created_at'', oget b (asc ''created_at'')),
                             (asc ''started_at'', oget b (asc ''started_at'')),
                             (asc ''completed_at'', oget b (asc ''completed_at''))])]))"

definition project_appended :: "json \<Rightarrow> exn + json" where
  \<comment> \<open>\<open>{ok: true, id: j.id}\<close>\<close>
  "project_appended j =
     (case sget j (asc ''id'') of
        Inl e \<Rightarrow> Inl e
      | Inr i \<Rightarrow> Inr (JObj [(asc ''ok'', JBool True), (asc ''id'', i)]))"

definition project_status :: "json \<Rightarrow> exn + json" where
  \<comment> \<open>\<open>{status: j.status}\<close>\<close>
  "project_status j =
     (case sget j (asc ''status'') of
        Inl e \<Rightarrow> Inl e
      | Inr s \<Rightarrow> Inr (JObj [(asc ''status'', s)]))"

subsection \<open>Handlers\<close>

text \<open>
  A handler answers with a status and a JSON body. What it asks of the outside is a
  credential (\<open>getAccessToken\<close>) and one upstream request (\<open>fetch\<close>); the world of one
  request fixes what each of the two gives: the token or an exception, and a reply or
  an exception (a transport failure). A reply has a status and a body, which either
  parses as JSON or makes \<open>r.json()\<close> throw.
\<close>

record response =
  res_status :: nat
  res_json :: json

datatype upstream_op =
    PostThreadRun jstring
  | PostMessage json json
  | PostRun json
  | GetRunStatus json json
  | GetMessages json

datatype call = GetAccessToken | Fetch upstream_op

record reply =
  reply_status :: nat
  reply_json :: "json option"

record world =
  access_token :: "exn + jstring"
  upstream_reply :: "exn + reply"

definition reply_ok :: "reply \<Rightarrow> bool" where
  "reply_ok r = (200 \<le> reply_status r \<and> reply_status r \<le> 299)"

definition error_json :: "string \<Rightarrow> json" where
  \<comment> \<open>\<open>{error: {message: msg}}\<close>\<close>
  "error_json msg = JObj [(asc ''error'', JObj [(asc ''message'', JStr (asc msg))])]"

definition server_error :: response where
  "server_error = \<lparr>res_status = 500, res_json = error_json ''Server error''\<rparr>"

definition bad_request :: "string \<Rightarrow> response" where
  "bad_request msg = \<lparr>res_status = 400, res_json = error_json msg\<rparr>"

definition upstream_error :: "nat \<Rightarrow> response" where
  "upstream_error st = \<lparr>res_status = st, res_json = error_json ''Upstream error''\<rparr>"

text \<open>
  Behind its own check of the request every handler has the same lines: the token, the
  URL (\<open>encodeURIComponent\<close> of each identifier, which throws on a lone surrogate), the
  fetch, \<open>r.json()\<close>, the \<open>ok\<close> test, and the projection of the parsed body, all inside
  one \<open>try\<close> whose \<open>catch\<close> answers 500. They are written once here; \<open>ids\<close> are the
  identifiers that go into the URL.
\<close>

definition relay ::
  "world \<Rightarrow> json list \<Rightarrow> upstream_op \<Rightarrow> (json \<Rightarrow> exn + json) \<Rightarrow> response \<times> call list" where
  "relay w ids op project =
     (case access_token w of
        Inl e \<Rightarrow> (server_error, [GetAccessToken])
      | Inr tok \<Rightarrow>
          if \<not> list_all (\<lambda>i. well_formed (to_string i)) ids
          then (server_error, [GetAccessToken])
          else
            (case upstream_reply w of
               Inl e \<Rightarrow> (server_error, [GetAccessToken, Fetch op])
             | Inr r \<Rightarrow>
                 (case reply_json r of
                    None \<Rightarrow> (server_error, [GetAccessToken, Fetch op])
                  | Some j \<Rightarrow>
                      if \<not> reply_ok r
                      then (upstream_error (reply_status r), [GetAccessToken, Fetch op])
                      else
                        (case project j of
                           Inl e \<Rightarrow> (server_error, [GetAccessToken, Fetch op])
                         | Inr out \<Rightarrow>
                             (\<lparr>res_status = 200, res_json = out\<rparr>,
                              [GetAccessToken, Fetch op])))))"

definition api_threads_runs :: "world \<Rightarrow> json \<Rightarrow> response \<times> call list" where
  \<comment> \<open>POST /api/threads-runs, on \<open>req.body\<close>\<close>
  "api_threads_runs w body =
     (case extractUserText body of
        Inl e \<Rightarrow> (server_error, [])
      | Inr text \<Rightarrow>
          if text = [] then (bad_request ''Missing text'', [])
          else relay w [] (PostThreadRun text) project_thread_run)"

definition api_append_message :: "world \<Rightarrow> json \<Rightarrow> response \<times> call list" where
  \<comment> \<open>POST /api/append-message, on \<open>req.body\<close>\<close>
  "api_append_message w body =
     (let b = or_else body (JObj []);
          threadId = oget b (asc ''threadId'');
          content = oget b (asc ''content'')
      in if \<not> truthy threadId \<or> trim (to_string (or_else content (JStr []))) = []
         then (bad_request ''Missing fields'', [])
         else relay w [threadId] (PostMessage threadId content) project_appended)"

definition api_start_run :: "world \<Rightarrow> json \<Rightarrow> response \<times> call list" where
  \<comment> \<open>POST /api/start-run, on \<open>req.body\<close>\<close>
  "api_start_run w body =
     (let threadId = oget (or_else body (JObj [])) (asc ''threadId'')
      in if \<not> truthy threadId then (bad_request ''Missing threadId'', [])
         else relay w [threadId] (PostRun threadId) projectRun)"

definition api_run_status :: "world \<Rightarrow> json \<Rightarrow> response \<times> call list" where
  \<comment> \<open>GET /api/run-status, on \<open>req.query\<close>\<close>
  "api_run_status w query =
     (let q = or_else query (JObj []);
          threadId = oget q (asc ''threadId'');
          runId = oget q (asc ''runId'')
      in if \<not> truthy threadId \<or> \<not> truthy runId then (bad_request ''Missing ids'', [])
         else relay w [threadId, runId] (GetRunStatus threadId runId) project_status)"

definition api_messages :: "world \<Rightarrow> json \<Rightarrow> response \<times> call list" where
  \<comment> \<open>GET /api/messages, on \<open>req.query\<close>\<close>
  "api_messages w query =
     (let threadId = oget (or_else query (JObj [])) (asc ''threadId'')
      in if \<not> truthy threadId then (bad_request ''Missing threadId'', [])
         else relay w [threadId] (GetMessages threadId) projectMsgList)"

text \<open>The routes of the application: the request is the body of a POST, the query of a GET.\<close>

datatype endpoint = ThreadsRuns | AppendMessage | StartRun | RunStatus | Messages

fun proxy :: "endpoint \<Rightarrow> world \<Rightarrow> json \<Rightarrow> response \<times> call list" where
  "proxy ThreadsRuns = api_threads_runs"
| "proxy AppendMessage = api_append_message"
| "proxy StartRun = api_start_run"
| "proxy RunStatus = api_run_status"
| "proxy Messages = api_messages"

text \<open>
  What the specification calls a missing field: an identifier that is absent or empty,
  a text that is absent or blank.
\<close>

definition absent_or_empty :: "json \<Rightarrow> bool" where
  "absent_or_empty v = (v = JUndef \<or> v = JNull \<or> v = JStr [])"

definition blank_text :: "json \<Rightarrow> bool" where
  "blank_text v =
     (case v of JUndef \<Rightarrow> True | JNull \<Rightarrow> True | JStr s \<Rightarrow> trim s = [] | _ \<Rightarrow> False)"

section \<open>The client: feedback marker\<close>

definition separator :: "jstring \<Rightarrow> jstring option" where
  \<comment> \<open>\<open>(?:-|U+2013|to)\<close>: a hyphen, an en dash (U+2013) or the word \<open>to\<close>\<close>
  "separator s =
     (case lit_ci [0x2D] s of
        Some r \<Rightarrow> Some r
      | None \<Rightarrow> (case lit_ci [0x2013] s of Some r \<Rightarrow> Some r | None \<Rightarrow> lit_ci (asc ''to'') s))"

definition phrase_rest :: "nat option \<Rightarrow> jstring \<Rightarrow> jstring option" where
  \<comment> \<open>\<open>\bfeedback\s*1\s*(?:-|U+2013|to)\s*5\b\<close> with the \<open>i\<close> flag, at one position; the result
      is the text behind the match.\<close>
  "phrase_rest prev s =
     (if \<not> boundary prev s then None
      else
        (case lit_ci (asc ''feedback'') s of
           None \<Rightarrow> None
         | Some s1 \<Rightarrow>
             (case lit_ci (asc ''1'') (spaces s1) of
                None \<Rightarrow> None
              | Some s2 \<Rightarrow>
                  (case separator (spaces s2) of
                     None \<Rightarrow> None
                   | Some s3 \<Rightarrow>
                       (case lit_ci (asc ''5'') (spaces s3) of
                          None \<Rightarrow> None
                        | Some s4 \<Rightarrow> if boundary (Some 0x35) s4 then Some s4 else None)))))"

definition m_phrase :: "nat option \<Rightarrow> jstring \<Rightarrow> nat option" where
  "m_phrase prev s = map_option (\<lambda>r. length s - length r) (phrase_rest prev s)"

definition phrase_to_eol :: "nat option \<Rightarrow> jstring \<Rightarrow> nat option" where
  \<comment> \<open>The phrase at this position, then \<open>[^\n]*\<close> to the end of the line. There the
      optional \<open>([.!?])\<close> finds a line feed or the end of the input and matches nothing,
      and the lookahead \<open>(?=\n|$)\<close> holds.\<close>
  "phrase_to_eol prev s =
     map_option (\<lambda>r. length s - length (dropWhile (\<lambda>d. d \<noteq> 0x0A) r)) (phrase_rest prev s)"

fun line_body :: "nat option \<Rightarrow> jstring \<Rightarrow> nat option" where
  \<comment> \<open>\<open>[^\n]*\<close> before the phrase: greedy, so one more code unit of the line is taken
      first, and the phrase is tried here only when nothing matches further on.\<close>
  "line_body prev [] = phrase_to_eol prev []"
| "line_body prev (c # cs) =
     (case (if c = 0x0A then None else line_body (Some c) cs) of
        Some n \<Rightarrow> Some (Suc n)
      | None \<Rightarrow> phrase_to_eol prev (c # cs))"

definition m_line :: "nat option \<Rightarrow> jstring \<Rightarrow> nat option" where
  \<comment> \<open>\<open>(^|\n)[^\n]*\bfeedback\s*1\s*(?:-|U+2013|to)\s*5\b[^\n]*([.!?])?(?=\n|$)\<close>: without
      the \<open>m\<close> flag \<open>^\<close> is the start of the input; the alternative \<open>\n\<close> is tried second.\<close>
  "m_line prev s =
     (case (if prev = None then line_body None s else None) of
        Some n \<Rightarrow> Some n
      | None \<Rightarrow>
          (case s of
             [] \<Rightarrow> None
           | c # cs \<Rightarrow> if c = 0x0A then map_option Suc (line_body (Some 0x0A) cs) else None))"

record stripped =
  cleaned :: jstring
  found :: bool

definition normalise :: "jstring \<Rightarrow> jstring" where
  \<comment> \<open>\<open>.replace(/\n{3,}/g, "\n\n").replace(/[ \t]{2,}/g, " ").trim()\<close>\<close>
  "normalise s =
     trim (replaceAll m_hspaces [0x20] None (replaceAll m_newlines [0x0A, 0x0A] None s))"

definition stripFeedbackPrompt :: "jstring \<Rightarrow> stripped" where
  "stripFeedbackPrompt text =
     (let lines_found = occurs m_line None text;
          c1 = replaceAll m_line [] None text;
          bare_found = occurs m_phrase None c1;
          c2 = replaceAll m_phrase [] None c1
      in \<lparr>cleaned = normalise c2, found = (lines_found \<or> bare_found)\<rparr>)"

definition has_marker :: "jstring \<Rightarrow> bool" where
  \<comment> \<open>The rating phrase stands somewhere in the text.\<close>
  "has_marker text = occurs m_phrase None text"

section \<open>The client: text of a message\<close>

subsection \<open>JSON.stringify\<close>

definition hex_digit :: "nat \<Rightarrow> nat" where
  "hex_digit d = (if d < 10 then 0x30 + d else 0x61 + (d - 10))"

definition u_escape :: "nat \<Rightarrow> jstring" where
  \<comment> \<open>A backslash, \<open>u\<close> and four hexadecimal digits in lower case.\<close>
  "u_escape c =
     [0x5C, 0x75, hex_digit (c div 4096 mod 16), hex_digit (c div 256 mod 16),
      hex_digit (c div 16 mod 16), hex_digit (c mod 16)]"

fun quote_units :: "jstring \<Rightarrow> jstring" where
  \<comment> \<open>The inside of a quoted JSON string: the short escapes, \<open>\u\<close> escapes for the other
      control characters and for lone surrogates, everything else as it is.\<close>
  "quote_units [] = []"
| "quote_units (c # cs) =
     (if c = 0x22 then [0x5C, 0x22] @ quote_units cs
      else if c = 0x5C then [0x5C, 0x5C] @ quote_units cs
      else if c = 0x08 then [0x5C, 0x62] @ quote_units cs
      else if c = 0x0C then [0x5C, 0x66] @ quote_units cs
      else if c = 0x0A then [0x5C, 0x6E] @ quote_units cs
      else if c = 0x0D then [0x5C, 0x72] @ quote_units cs
      else if c = 0x09 then [0x5C, 0x74] @ quote_units cs
      else if c < 0x20 then u_escape c @ quote_units cs
      else if is_high c then
        (case cs of
           [] \<Rightarrow> u_escape c
         | d # ds \<Rightarrow> if is_low d then c # d # quote_units ds else u_escape c @ quote_units cs)
      else if is_low c then u_escape c @ quote_units cs
      else c # quote_units cs)"

definition quote :: "jstring \<Rightarrow> jstring" where
  "quote s = [0x22] @ quote_units s @ [0x22]"

fun stringify :: "json \<Rightarrow> jstring" where
  \<comment> \<open>\<open>JSON.stringify(v)\<close> for a value other than \<open>undefined\<close> (for which the result is
      no string; the program never asks for it). In an array \<open>undefined\<close> is written
      \<open>null\<close>; a property whose value is \<open>undefined\<close> is left out.\<close>
  "stringify JUndef = []"
| "stringify JNull = asc ''null''"
| "stringify (JBool b) = (if b then asc ''true'' else asc ''false'')"
| "stringify (JNum n) = dec_int n"
| "stringify (JStr s) = quote s"
| "stringify (JArr xs) =
     asc ''['' @
     join (asc '','') (map (\<lambda>x. if x = JUndef then asc ''null'' else stringify x) xs) @
     asc '']''"
| "stringify (JObj kvs) =
     asc ''{'' @
     join (asc '','')
       (map (\<lambda>kv. quote (fst kv) @ asc '':'' @ stringify (snd kv))
            (filter (\<lambda>kv. snd kv \<noteq> JUndef) kvs)) @
     asc ''}''"

subsection \<open>extractAssistantText\<close>

fun contains :: "jstring \<Rightarrow> jstring \<Rightarrow> bool" where
  \<comment> \<open>\<open>s.includes(sub)\<close>\<close>
  "contains sub [] = (sub = [])"
| "contains sub (c # cs) = (take (length sub) (c # cs) = sub \<or> contains sub cs)"

definition includes_image :: "json \<Rightarrow> bool option" where
  \<comment> \<open>\<open>it.type?.includes("image")\<close>: a string looks for the substring, an array for
      the element; any other value that is not \<open>null\<close> or \<open>undefined\<close> has no \<open>includes\<close>,
      and the call throws (\<open>None\<close>).\<close>
  "includes_image ty =
     (case ty of
        JUndef \<Rightarrow> Some False
      | JNull \<Rightarrow> Some False
      | JStr s \<Rightarrow> Some (contains (asc ''image'') s)
      | JArr xs \<Rightarrow> Some (JStr (asc ''image'') \<in> set xs)
      | _ \<Rightarrow> None)"

definition is_str :: "json \<Rightarrow> bool" where
  \<comment> \<open>\<open>typeof v === "string"\<close>\<close>
  "is_str v = (case v of JStr s \<Rightarrow> True | _ \<Rightarrow> False)"

definition str_of :: "json \<Rightarrow> jstring" where
  "str_of v = (case v of JStr s \<Rightarrow> s | _ \<Rightarrow> [])"

datatype taken = Skip | Push jstring | Abort

definition take_item :: "json \<Rightarrow> taken" where
  \<comment> \<open>The inner function \<open>take\<close>: what it pushes for one item, or that it throws.\<close>
  "take_item it =
     (if \<not> truthy it then Skip
      else if is_str it then Push (str_of it)
      else if oget it (asc ''type'') = JStr (asc ''text'') \<and> truthy (oget it (asc ''text'')) \<and>
              is_str (oget (oget it (asc ''text'')) (asc ''value''))
        then Push (str_of (oget (oget it (asc ''text'')) (asc ''value'')))
      else if is_str (oget it (asc ''text'')) then Push (str_of (oget it (asc ''text'')))
      else if is_str (oget it (asc ''output_text''))
        then Push (str_of (oget it (asc ''output_text'')))
      else if truthy (oget it (asc ''output_text'')) \<and>
              is_str (oget (oget it (asc ''output_text'')) (asc ''value''))
        then Push (str_of (oget (oget it (asc ''output_text'')) (asc ''value'')))
      else if is_str (oget it (asc ''value'')) then Push (str_of (oget it (asc ''value'')))
      else
        (case includes_image (oget it (asc ''type'')) of
           None \<Rightarrow> Abort
         | Some img \<Rightarrow>
             if img \<or> truthy (oget it (asc ''image'')) \<or> truthy (oget it (asc ''image_file''))
             then Push (asc ''[Image output]'')
             else Push (stringify it)))"

fun take_all :: "json list \<Rightarrow> jstring list" where
  \<comment> \<open>The loop over the parts inside \<open>try { ... } catch {}\<close>: an exception ends the
      loop, and what was pushed before it stays.\<close>
  "take_all [] = []"
| "take_all (x # xs) =
     (case take_item x of
        Skip \<Rightarrow> take_all xs
      | Push s \<Rightarrow> s # take_all xs
      | Abort \<Rightarrow> [])"

definition extractAssistantText :: "json \<Rightarrow> jstring" where
  "extractAssistantText msg =
     trim (join [0x0A, 0x0A]
       (case oget msg (asc ''content'') of
          JArr parts \<Rightarrow> take_all parts
        | content \<Rightarrow> take_all [content]))"

section \<open>The client: one conversation\<close>

text \<open>
  The state of the page: the module variables \<open>threadId\<close>, \<open>sending\<close> and
  \<open>pendingFeedback\<close>, whether \<open>typingEl\<close> is set, and the bubbles under \<open>#messages\<close> in
  order. A bubble holds the Markdown that \<open>mdToHtml\<close> renders (the rendering is not
  modelled); a rating form is named by a number, the count of forms made before it.
\<close>

datatype bubble =
    UserBubble jstring
  | AssistantBubble jstring
  | ErrorBubble exn
  | TypingBubble
  | RatingForm nat

record client =
  threadId :: json
  sending :: bool
  pendingFeedback :: bool
  typing :: bool
  transcript :: "bubble list"
  forms :: nat

definition fresh_client :: client where
  "fresh_client =
     \<lparr>threadId = JNull, sending = False, pendingFeedback = False, typing = False,
      transcript = [], forms = 0\<rparr>"

definition addMsg :: "bubble \<Rightarrow> client \<Rightarrow> client" where
  "addMsg b c = c\<lparr>transcript := transcript c @ [b]\<rparr>"

definition showTyping :: "client \<Rightarrow> client" where
  "showTyping c = (addMsg TypingBubble c)\<lparr>typing := True\<rparr>"

definition remove_last :: "'a \<Rightarrow> 'a list \<Rightarrow> 'a list" where
  "remove_last x xs = rev (remove1 x (rev xs))"

definition hideTyping :: "client \<Rightarrow> client" where
  \<comment> \<open>Removes the indicator that the last \<open>showTyping\<close> added, if it is still set.\<close>
  "hideTyping c =
     (if typing c
      then c\<lparr>transcript := remove_last TypingBubble (transcript c), typing := False\<rparr>
      else c)"

subsection \<open>renderLatestAssistant\<close>

definition lower :: "nat \<Rightarrow> nat" where
  \<comment> \<open>\<open>toLowerCase\<close> on ASCII. The result is only compared with \<open>"assistant"\<close>. Outside
      ASCII only U+212A (to \<open>k\<close>) and U+0130 (to \<open>i\<close> and a combining dot) have ASCII in
      their lower case, and neither can make the result equal to that word.\<close>
  "lower c = (if 0x41 \<le> c \<and> c \<le> 0x5A then c + 0x20 else c)"

definition is_assistant :: "json \<Rightarrow> bool" where
  \<comment> \<open>\<open>String(m.role || "").toLowerCase() === "assistant"\<close>\<close>
  "is_assistant m =
     (map lower (to_string (or_else (oget m (asc ''role'')) (JStr []))) = asc ''assistant'')"

fun find_assistant :: "json list \<Rightarrow> exn + json option" where
  \<comment> \<open>\<open>sorted.find(m => ...)\<close>: reading \<open>m.role\<close> of \<open>null\<close> throws.\<close>
  "find_assistant [] = Inr None"
| "find_assistant (m # ms) =
     (if m = JNull \<or> m = JUndef then Inl TypeError
      else if is_assistant m then Inr (Some m)
      else find_assistant ms)"

definition created_num :: "json \<Rightarrow> int option" where
  \<comment> \<open>\<open>m.created_at || 0\<close> as the number that the subtraction makes of it; \<open>None\<close> for a
      string, an array or an object, whose conversion to a number is not modelled.\<close>
  "created_num m =
     (case or_else (oget m (asc ''created_at'')) (JNum 0) of
        JNum n \<Rightarrow> Some n
      | JBool b \<Rightarrow> Some 1
      | _ \<Rightarrow> None)"

definition timestamp :: "json \<Rightarrow> int" where
  "timestamp m = (case created_num m of Some n \<Rightarrow> n | None \<Rightarrow> 0)"

definition sort_newest_first :: "(json list \<Rightarrow> json list) \<Rightarrow> json list \<Rightarrow> exn + json list" where
  \<comment> \<open>\<open>items.slice().sort((a, b) => (b.created_at||0) - (a.created_at||0))\<close>. The
      comparator is called on every element of a list of two or more, and throws on
      \<open>null\<close> (an array parsed from JSON holds no \<open>undefined\<close>). With numbers throughout
      it orders the list by descending timestamp, and the sort is stable. Otherwise the
      comparator yields NaN and the order is the implementation's own: \<open>engine\<close> stands
      for what the JavaScript engine makes of such a list.\<close>
  "sort_newest_first engine its =
     (if length its \<le> 1 then Inr its
      else if \<exists>m \<in> set its. m = JNull \<or> m = JUndef then Inl TypeError
      else if \<forall>m \<in> set its. created_num m \<noteq> None
        then Inr (sort_key (\<lambda>m. - timestamp m) its)
      else Inr (engine its))"

definition select_latest :: "(json list \<Rightarrow> json list) \<Rightarrow> json list \<Rightarrow> exn + json option" where
  \<comment> \<open>The lines that choose \<open>latestAssistant\<close> from a non-empty list.\<close>
  "select_latest engine its =
     (case (if truthy (oget (hd its) (asc ''created_at''))
            then sort_newest_first engine its else Inr its) of
        Inl e \<Rightarrow> Inl e
      | Inr ordered \<Rightarrow> find_assistant ordered)"

datatype items = Items "json list" | NoItems | NotAList

definition items_of :: "json \<Rightarrow> items" where
  \<comment> \<open>\<open>Array.isArray(p) ? p : (p?.data || [])\<close>, and the test of its \<open>length\<close>. A value
      that is not an array has no \<open>find\<close>: with a truthy length (a non-empty string, an
      object with such a property) the function throws further down.\<close>
  "items_of p =
     (case (case p of JArr xs \<Rightarrow> p | _ \<Rightarrow> or_else (oget p (asc ''data'')) (JArr [])) of
        JArr xs \<Rightarrow> if xs = [] then NoItems else Items xs
      | JStr s \<Rightarrow> NotAList
      | JObj kvs \<Rightarrow> if truthy (oget (JObj kvs) (asc ''length'')) then NotAList else NoItems
      | _ \<Rightarrow> NoItems)"

definition renderFeedbackPrompt :: "client \<Rightarrow> client" where
  \<comment> \<open>Adds the form with the five stars.\<close>
  "renderFeedbackPrompt c = (addMsg (RatingForm (forms c)) c)\<lparr>forms := Suc (forms c)\<rparr>"

definition render_message :: "json \<Rightarrow> client \<Rightarrow> client" where
  \<comment> \<open>The last lines of renderLatestAssistant, for the message chosen.\<close>
  "render_message latest c =
     (let r = stripFeedbackPrompt (extractAssistantText latest);
          c1 = (if cleaned r \<noteq> [] then addMsg (AssistantBubble (cleaned r)) c else c)
      in if found r \<and> \<not> pendingFeedback c1
         then renderFeedbackPrompt (c1\<lparr>pendingFeedback := True\<rparr>)
         else c1)"

definition renderLatestAssistant ::
  "(json list \<Rightarrow> json list) \<Rightarrow> json \<Rightarrow> client \<Rightarrow> exn + client" where
  "renderLatestAssistant engine itemsParam c =
     (case items_of itemsParam of
        NoItems \<Rightarrow> Inr (addMsg (AssistantBubble (asc ''_No messages returned._'')) c)
      | NotAList \<Rightarrow> Inl TypeError
      | Items its \<Rightarrow>
          (case select_latest engine its of
             Inl e \<Rightarrow> Inl e
           | Inr None \<Rightarrow>
               Inr (addMsg (AssistantBubble (asc ''_No assistant response found._'')) c)
           | Inr (Some latest) \<Rightarrow> Inr (render_message latest c)))"

subsection \<open>sendMessage\<close>

definition c2w_rest :: "jstring \<Rightarrow> jstring option" where
  \<comment> \<open>\<open>Cycle\s*to\s*Work status\<close> with the \<open>i\<close> flag, at one position\<close>
  "c2w_rest s =
     (case lit_ci (asc ''Cycle'') s of
        None \<Rightarrow> None
      | Some a \<Rightarrow>
          (case lit_ci (asc ''to'') (spaces a) of
             None \<Rightarrow> None
           | Some b \<Rightarrow> lit_ci (asc ''Work status'') (spaces b)))"

definition feedback_command :: "jstring \<Rightarrow> bool" where
  \<comment> \<open>\<open>/^FEEDBACK\s*[1-5]\b/i\<close>\<close>
  "feedback_command s =
     (case lit_ci (asc ''FEEDBACK'') s of
        None \<Rightarrow> False
      | Some a \<Rightarrow>
          (case spaces a of
             [] \<Rightarrow> False
           | d # r \<Rightarrow> 0x31 \<le> d \<and> d \<le> 0x35 \<and> boundary (Some d) r))"

definition shouldSkipUserBubble :: "jstring \<Rightarrow> bool" where
  "shouldSkipUserBubble s =
     (occurs (\<lambda>prev t. map_option length (lit_ci (asc ''Where is my order?'') t)) None s \<or>
      occurs (\<lambda>prev t. map_option length (c2w_rest t)) None s \<or>
      (case lit_ci (asc ''LOYALTY_SIGNUP'') s of
         None \<Rightarrow> False
       | Some r \<Rightarrow> boundary (Some 0x50) r) \<or>
      feedback_command s)"

text \<open>
  What the proxy gives to the calls of one turn: the parsed body that \<open>fetchJSON\<close>
  returns, or the exception it throws (a network failure, or a response that is not ok).
  \<open>getRun\<close> is called once per round of the loop; the list scripts its results in order.
\<close>

record turn_net =
  created :: "exn + json"
  appended :: "exn + json"
  started :: "exn + json"
  polled :: "(exn + json) list"
  listed :: "exn + json"

datatype net_call =
    DoCreateThreadAndRun jstring
  | DoAppendMessage jstring
  | DoStartRun
  | DoGetRun json
  | DoListThreadMessages

definition is_terminal :: "json \<Rightarrow> bool" where
  \<comment> \<open>\<open>terminal.has(status)\<close>\<close>
  "is_terminal st =
     (st = JStr (asc ''completed'') \<or> st = JStr (asc ''failed'') \<or>
      st = JStr (asc ''cancelled'') \<or> st = JStr (asc ''expired''))"

fun poll :: "json \<Rightarrow> (exn + json) list \<Rightarrow> ((exn + json) \<times> nat) option" where
  \<comment> \<open>The loop \<open>while (!terminal.has(status))\<close>: the status it ends with or the exception
      of a \<open>getRun\<close>, and the number of \<open>getRun\<close> calls made. \<open>None\<close>: the script is used
      up and the loop has not ended.\<close>
  "poll st rs =
     (if is_terminal st then Some (Inr st, 0)
      else
        (case rs of
           [] \<Rightarrow> None
         | Inl e # rs' \<Rightarrow> Some (Inl e, 1)
         | Inr rstatus # rs' \<Rightarrow>
             (let st' = oget rstatus (asc ''status'') in
              if st' = JStr (asc ''requires_action'') then Some (Inr st', 1)
              else map_option (\<lambda>(r, n). (r, Suc n)) (poll st' rs'))))"

definition begin_turn :: "jstring \<Rightarrow> client \<Rightarrow> client" where
  \<comment> \<open>From the guard to the \<open>try\<close>: the lock, the echo of the text, the indicator.\<close>
  "begin_turn text c =
     showTyping
       (let c1 = c\<lparr>sending := True\<rparr>
        in if shouldSkipUserBubble text then c1 else addMsg (UserBubble text) c1)"

definition start_run ::
  "turn_net \<Rightarrow> jstring \<Rightarrow> client \<Rightarrow> (exn + json \<times> json) \<times> client \<times> net_call list" where
  \<comment> \<open>The first lines of the \<open>try\<close>: the run id and the first status.\<close>
  "start_run net text c =
     (if \<not> truthy (threadId c) then
        (case created net of
           Inl e \<Rightarrow> (Inl e, c, [DoCreateThreadAndRun text])
         | Inr d \<Rightarrow>
             if d = JNull \<or> d = JUndef then (Inl TypeError, c, [DoCreateThreadAndRun text])
             else
               (let thread = oget d (asc ''thread''); run = oget d (asc ''run'')
                in (Inr (oget run (asc ''id''), oget run (asc ''status'')),
                    c\<lparr>threadId := or_else (oget thread (asc ''id''))
                                          (oget run (asc ''thread_id''))\<rparr>,
                    [DoCreateThreadAndRun text])))
      else
        (case appended net of
           Inl e \<Rightarrow> (Inl e, c, [DoAppendMessage text])
         | Inr a \<Rightarrow>
             (case started net of
                Inl e \<Rightarrow> (Inl e, c, [DoAppendMessage text, DoStartRun])
              | Inr run \<Rightarrow>
                  (Inr (oget run (asc ''id''), oget run (asc ''status'')), c,
                   [DoAppendMessage text, DoStartRun]))))"

datatype 'a outcome = Done 'a | StillPolling

definition turn_try ::
  "(json list \<Rightarrow> json list) \<Rightarrow> turn_net \<Rightarrow> jstring \<Rightarrow> client \<Rightarrow>
     ((exn + unit) \<times> client \<times> net_call list) outcome" where
  \<comment> \<open>The \<open>try\<close> block: whether it throws, the state it leaves, the calls it made.\<close>
  "turn_try engine net text c =
     (case start_run net text c of
        (Inl e, c1, calls) \<Rightarrow> Done (Inl e, c1, calls)
      | (Inr (runId, st), c1, calls) \<Rightarrow>
          (case poll st (polled net) of
             None \<Rightarrow> StillPolling
           | Some (Inl e, n) \<Rightarrow> Done (Inl e, c1, calls @ replicate n (DoGetRun runId))
           | Some (Inr st', n) \<Rightarrow>
               (let calls' = calls @ replicate n (DoGetRun runId) @ [DoListThreadMessages] in
                case listed net of
                  Inl e \<Rightarrow> Done (Inl e, c1, calls')
                | Inr list \<Rightarrow>
                    (case renderLatestAssistant engine list (hideTyping c1) of
                       Inl e \<Rightarrow> Done (Inl e, hideTyping c1, calls')
                     | Inr c2 \<Rightarrow> Done (Inr (), c2, calls')))))"

definition finish_turn ::
  "(json list \<Rightarrow> json list) \<Rightarrow> turn_net \<Rightarrow> jstring \<Rightarrow> client \<Rightarrow>
     (client \<times> net_call list) outcome" where
  \<comment> \<open>\<open>try\<close>, \<open>catch\<close> and \<open>finally\<close>.\<close>
  "finish_turn engine net text c =
     (case turn_try engine net text c of
        StillPolling \<Rightarrow> StillPolling
      | Done (r, c1, calls) \<Rightarrow>
          (let c2 = (case r of
                       Inr u \<Rightarrow> c1
                     | Inl e \<Rightarrow> addMsg (ErrorBubble e) (hideTyping c1))
           in Done (c2\<lparr>sending := False\<rparr>, calls)))"


subsection \<open>Events\<close>

text \<open>
  \<open>sendMessage\<close> is asynchronous: between its first request and its last reply the page
  handles other events. A session is the page together with the calls of \<open>sendMessage\<close>
  that are suspended at their requests, each with the rating form whose click handler
  awaits it, if one does. The events are a text sent from the composer or a chip, a
  click on a star of a form on the page, and the arrival of the replies that let the
  oldest suspended call run to its end. A handler that awaits a call which returns at
  the guard goes on at once.
\<close>

datatype event = Submit jstring | Star nat nat | Reply turn_net

record session =
  ui :: client
  suspended :: "(jstring \<times> nat option) list"

definition after_click :: "nat \<Rightarrow> client \<Rightarrow> client" where
  \<comment> \<open>The click handler behind its \<open>await\<close>: the form goes, the flag is cleared.\<close>
  "after_click f c =
     c\<lparr>transcript := removeAll (RatingForm f) (transcript c), pendingFeedback := False\<rparr>"

definition call_sendMessage :: "jstring \<Rightarrow> nat option \<Rightarrow> session \<Rightarrow> session" where
  "call_sendMessage text handler s =
     (if trim text = [] \<or> sending (ui s)
      then (case handler of None \<Rightarrow> s | Some f \<Rightarrow> s\<lparr>ui := after_click f (ui s)\<rparr>)
      else s\<lparr>ui := begin_turn text (ui s), suspended := suspended s @ [(text, handler)]\<rparr>)"

definition stars_text :: "nat \<Rightarrow> jstring" where
  \<comment> \<open>\<open>Feedback: \<close> with n black and 5 - n white stars and \<open> (n/5)\<close>\<close>
  "stars_text n =
     asc ''Feedback: '' @ replicate n 0x2605 @ replicate (5 - n) 0x2606 @
     asc '' ('' @ [0x30 + n] @ asc ''/5)''"

fun step :: "(json list \<Rightarrow> json list) \<Rightarrow> event \<Rightarrow> session \<Rightarrow> session option" where
  "step engine (Submit text) s = Some (call_sendMessage text None s)"
| "step engine (Star f n) s =
     (if RatingForm f \<in> set (transcript (ui s)) \<and> 1 \<le> n \<and> n \<le> 5
      then Some (call_sendMessage (asc ''FEEDBACK '' @ [0x30 + n]) (Some f)
                   (s\<lparr>ui := addMsg (UserBubble (stars_text n)) (ui s)\<rparr>))
      else None)"
| "step engine (Reply net) s =
     (case suspended s of
        [] \<Rightarrow> None
      | (text, handler) # rest \<Rightarrow>
          (case finish_turn engine net text (ui s) of
             Done (c, calls) \<Rightarrow>
               Some \<lparr>ui = (case handler of None \<Rightarrow> c | Some f \<Rightarrow> after_click f c),
                     suspended = rest\<rparr>
           | StillPolling \<Rightarrow> None))"

fun run :: "(json list \<Rightarrow> json list) \<Rightarrow> event list \<Rightarrow> session \<Rightarrow> session option" where
  "run engine [] s = Some s"
| "run engine (e # es) s =
     (case step engine e s of None \<Rightarrow> None | Some s' \<Rightarrow> run engine es s')"

definition fresh_session :: session where
  "fresh_session = \<lparr>ui = fresh_client, suspended = []\<rparr>"

definition open_forms :: "client \<Rightarrow> nat" where
  \<comment> \<open>The number of rating forms on the page.\<close>
  "open_forms c = length (filter (\<lambda>b. case b of RatingForm f \<Rightarrow> True | _ \<Rightarrow> False) (transcript c))"


section \<open>Concrete inputs\<close>

definition legacy_body :: "json \<Rightarrow> json" where
  \<comment> \<open>\<open>{payload: {thread: {messages: [{content: c}]}}}\<close>\<close>
  "legacy_body c =
     JObj [(asc ''payload'', JObj [(asc ''thread'', JObj [(asc ''messages'',
       JArr [JObj [(asc ''content'', c)]])])])]"

definition blank_value_body :: json where
  \<comment> \<open>A legacy body whose first text part is \<open>{type: "text", text: {value: " "}, value: "hi"}\<close>\<close>
  "blank_value_body =
     legacy_body (JArr [JObj [(asc ''type'', JStr (asc ''text'')),
                              (asc ''text'', JObj [(asc ''value'', JStr (asc '' ''))]),
                              (asc ''value'', JStr (asc ''hi''))]])"

definition text_part_body :: json where
  \<comment> \<open>A legacy body whose first text part is \<open>{type: "text", text: {value: " hi "}}\<close>\<close>
  "text_part_body =
     legacy_body (JArr [JObj [(asc ''type'', JStr (asc ''text'')),
                              (asc ''text'', JObj [(asc ''value'', JStr (asc '' hi ''))])]])"

definition thread_request :: "jstring \<Rightarrow> json" where
  \<comment> \<open>\<open>{threadId: t}\<close>\<close>
  "thread_request t = JObj [(asc ''threadId'', JStr t)]"

definition world_of :: "nat \<Rightarrow> json option \<Rightarrow> world" where
  \<comment> \<open>A token is at hand and upstream replies with this status and body.\<close>
  "world_of st b =
     \<lparr>access_token = Inr (asc ''tok''),
      upstream_reply = Inr \<lparr>reply_status = st, reply_json = b\<rparr>\<rparr>"

definition number_valued_messages :: json where
  \<comment> \<open>\<open>{data: [{role: "assistant", content: [{type: "text", text: {value: 5}}]}]}\<close>\<close>
  "number_valued_messages =
     JObj [(asc ''data'', JArr [JObj [(asc ''role'', JStr (asc ''assistant'')),
       (asc ''content'', JArr [JObj [(asc ''type'', JStr (asc ''text'')),
                                    (asc ''text'', JObj [(asc ''value'', JNum 5)])]])]])]"


definition assistant_message :: "json \<Rightarrow> jstring \<Rightarrow> json" where
  \<comment> \<open>A message as the proxy projects it, from the assistant.\<close>
  "assistant_message ts txt =
     JObj [(asc ''role'', JStr (asc ''assistant'')), (asc ''created_at'', ts),
           (asc ''content'', text_content txt)]"


definition marker_message :: json where
  \<comment> \<open>\<open>"Done.\n\nFeedback 1 to 5"\<close> from the assistant\<close>
  "marker_message =
     assistant_message (JNum 1) (asc ''Done.'' @ [0x0A, 0x0A] @ asc ''Feedback 1 to 5'')"

definition marker_list :: json where
  "marker_list = JObj [(asc ''data'', JArr [marker_message])]"

definition marker_net :: turn_net where
  \<comment> \<open>Every call succeeds, the run is completed at once, and the one message listed
      asks for a rating.\<close>
  "marker_net =
     \<lparr>created = Inr (JObj [(asc ''thread'', JObj [(asc ''id'', JStr (asc ''t''))]),
                          (asc ''run'', JObj [(asc ''id'', JStr (asc ''r'')),
                                              (asc ''status'', JStr (asc ''completed''))])]),
      appended = Inr (JObj [(asc ''ok'', JBool True)]),
      started = Inr (JObj [(asc ''id'', JStr (asc ''r'')),
                           (asc ''status'', JStr (asc ''completed''))]),
      polled = [],
      listed = Inr marker_list\<rparr>"

definition double_click_trace :: "event list" where
  \<comment> \<open>A first turn whose reply asks for a rating; two clicks on stars of the form, the
      second while the turn of the first is under way; the reply to that turn, which asks
      again; one more turn, whose reply asks again.\<close>
  "double_click_trace =
     [Submit (asc ''hi''), Reply marker_net, Star 0 3, Star 0 4, Reply marker_net,
      Submit (asc ''thanks''), Reply marker_net]"

definition user_message :: "json \<Rightarrow> jstring \<Rightarrow> json" where
  "user_message ts txt =
     JObj [(asc ''role'', JStr (asc ''user'')), (asc ''created_at'', ts),
           (asc ''content'', text_content txt)]"




section \<open>Auxiliary notions for the proofs\<close>

definition brk :: "jstring \<Rightarrow> jstring" where
  \<comment> \<open>The citation brackets of a text, in order.\<close>
  "brk s = filter (\<lambda>c. c = 0x3010 \<or> c = 0x3011) s"


section \<open>Global replacement and trimming\<close>

lemma replaceAll_Nil: "replaceAll m rep prev [] = (if m prev [] = None then [] else rep)"
  by (subst replaceAll.simps) (auto split: option.splits)

lemma replaceAll_no_match:
  "m prev (c # cs) = None \<Longrightarrow> replaceAll m rep prev (c # cs) = c # replaceAll m rep (Some c) cs"
  by (subst replaceAll.simps) simp

lemma replaceAll_match:
  "m prev (c # cs) = Some n \<Longrightarrow> 0 < n \<Longrightarrow>
   replaceAll m rep prev (c # cs) =
     rep @ replaceAll m rep (Some ((c # cs) ! (min n (Suc (length cs)) - 1))) (drop n (c # cs))"
  by (subst replaceAll.simps) simp

lemma replaceAll_absent: "\<not> occurs m prev s \<Longrightarrow> replaceAll m rep prev s = s"
  by (induction s arbitrary: prev) (auto simp: replaceAll_Nil replaceAll_no_match)

lemma set_replaceAll_Nil: "set (replaceAll m [] prev s) \<subseteq> set s"
proof (induction m "[]::jstring" prev s rule: replaceAll.induct)
  case (1 m prev s)
  show ?case
  proof (cases s)
    case Nil
    then show ?thesis by (simp add: replaceAll_Nil)
  next
    case (Cons c cs)
    show ?thesis
    proof (cases "m prev s")
      case None
      with 1(1)[OF None Cons] Cons show ?thesis
        by (auto simp: replaceAll_no_match)
    next
      case (Some n)
      show ?thesis
      proof (cases "n = 0")
        case True
        with 1(2)[OF Some _ Cons] Some Cons show ?thesis
          by (subst replaceAll.simps) auto
      next
        case False
        with 1(3)[OF Some] Some Cons have "set (replaceAll m [] (Some (s ! (min n (length s) - 1))) (drop n s)) \<subseteq> set (drop n s)"
          by simp
        moreover have "set (drop n s) \<subseteq> set s" by (rule set_drop_subset)
        ultimately show ?thesis using Some Cons False
          by (subst replaceAll.simps) auto
      qed
    qed
  qed
qed


lemma occurs_citation_Cons:
  "occurs m_citation p (c # cs) = ((c = 0x3010 \<and> 0x3011 \<in> set cs) \<or> occurs m_citation (Some c) cs)"
  by (auto simp: m_citation_def)

lemma occurs_citation_Nil: "\<not> occurs m_citation p []"
  by (simp add: m_citation_def)

lemma occurs_citation_brk: "occurs m_citation p s = occurs m_citation q (brk s)"
proof (induction s arbitrary: p q)
  case Nil
  then show ?case by (simp add: brk_def m_citation_def)
next
  case (Cons c cs)
  have mem: "(0x3011 \<in> set (brk cs)) = (0x3011 \<in> set cs)" by (auto simp: brk_def)
  show ?case
  proof (cases "c = 0x3010 \<or> c = 0x3011")
    case True
    then have "brk (c # cs) = c # brk cs" by (auto simp: brk_def)
    then show ?thesis
      using Cons[of "Some c" "Some c"] mem by (simp add: occurs_citation_Cons del: occurs.simps)
  next
    case False
    then have "brk (c # cs) = brk cs" by (auto simp: brk_def)
    then show ?thesis
      using Cons[of "Some c" q] False by (simp add: occurs_citation_Cons del: occurs.simps)
  qed
qed

lemma citation_gone: "\<not> occurs m_citation p (replaceAll m_citation [] prev s)"
proof (induction m_citation "[]::jstring" prev s arbitrary: p rule: replaceAll.induct)
  case (1 prev s)
  show ?case
  proof (cases s)
    case Nil
    then show ?thesis by (simp add: replaceAll_Nil m_citation_def)
  next
    case (Cons c cs)
    show ?thesis
    proof (cases "m_citation prev s")
      case None
      then have nm: "\<not> (c = 0x3010 \<and> 0x3011 \<in> set cs)"
        using Cons by (auto simp: m_citation_def split: if_splits)
      have sub: "set (replaceAll m_citation [] (Some c) cs) \<subseteq> set cs"
        by (rule set_replaceAll_Nil)
      from 1(1)[OF None Cons] have "\<not> occurs m_citation (Some c) (replaceAll m_citation [] (Some c) cs)" .
      with nm sub None Cons show ?thesis
        by (auto simp: replaceAll_no_match occurs_citation_Cons simp del: occurs.simps)
    next
      case (Some n)
      then have pos: "n \<noteq> 0" using Cons by (auto simp: m_citation_def split: if_splits)
      from 1(3)[OF Some] pos Cons
      have "\<not> occurs m_citation p (replaceAll m_citation [] (Some (s ! (min n (length s) - 1))) (drop n s))"
        by simp
      with Some pos Cons show ?thesis
        by (subst replaceAll.simps) simp
    qed
  qed
qed

lemma takeWhile_hspace_brk: "brk (takeWhile is_hspace s) = []"
  by (induction s) (auto simp: brk_def is_hspace_def)

lemma brk_append: "brk (a @ b) = brk a @ brk b"
  by (simp add: brk_def)

lemma brk_collapse: "brk (replaceAll m_hspaces [0x20] prev s) = brk s"
proof (induction m_hspaces "[0x20::nat]" prev s rule: replaceAll.induct)
  case (1 prev s)
  show ?case
  proof (cases s)
    case Nil
    then show ?thesis by (simp add: replaceAll_Nil m_hspaces_def)
  next
    case (Cons c cs)
    show ?thesis
    proof (cases "m_hspaces prev s")
      case None
      with 1(1)[OF None Cons] Cons show ?thesis
        by (simp add: replaceAll_no_match brk_def)
    next
      case (Some n)
      then have n: "n = length (takeWhile is_hspace s)" "2 \<le> n"
        by (auto simp: m_hspaces_def Let_def split: if_splits)
      then have d: "drop n s = dropWhile is_hspace s"
        by (simp add: dropWhile_eq_drop)
      from n(2) Cons have "\<not> (n = 0 \<or> s = [])" by simp
      from 1(3)[OF Some this]
      have ih: "brk (replaceAll m_hspaces [0x20] (Some (s ! (min n (length s) - 1))) (drop n s)) = brk (drop n s)" .
      have "brk s = brk (takeWhile is_hspace s @ dropWhile is_hspace s)" by simp
      also have "\<dots> = brk (drop n s)" unfolding brk_append takeWhile_hspace_brk d by simp
      finally have bs: "brk s = brk (drop n s)" .
      have "replaceAll m_hspaces [0x20] prev s =
              [0x20] @ replaceAll m_hspaces [0x20] (Some (s ! (min n (length s) - 1))) (drop n s)"
        using Some n(2) Cons by (subst replaceAll.simps) simp
      then have "brk (replaceAll m_hspaces [0x20] prev s) =
              brk (replaceAll m_hspaces [0x20] (Some (s ! (min n (length s) - 1))) (drop n s))"
        by (simp add: brk_def)
      with ih bs show ?thesis by simp
    qed
  qed
qed

lemma brk_dropWhile_space: "brk (dropWhile is_space s) = brk s"
  by (induction s) (auto simp: brk_def is_space_def)

lemma brk_rev: "brk (rev s) = rev (brk s)"
  by (simp add: brk_def rev_filter)

lemma brk_trim: "brk (trim s) = brk s"
  by (simp add: trim_def brk_rev brk_dropWhile_space)


lemma m_hspaces_Cons:
  "(m_hspaces p (c # cs) \<noteq> None) = (is_hspace c \<and> cs \<noteq> [] \<and> is_hspace (hd cs))"
  by (cases cs) (auto simp: m_hspaces_def Let_def)

lemma occurs_hspaces_Cons:
  "occurs m_hspaces p (c # cs) =
     ((is_hspace c \<and> cs \<noteq> [] \<and> is_hspace (hd cs)) \<or> occurs m_hspaces q cs)"
proof -
  have "occurs m_hspaces (Some c) cs = occurs m_hspaces q cs"
    by (cases cs) (simp_all add: m_hspaces_def)
  then show ?thesis using m_hspaces_Cons[of p c cs] by simp
qed

lemma collapse_head:
  "(replaceAll m_hspaces [0x20] prev s = []) = (s = []) \<and>
   (s \<noteq> [] \<longrightarrow> is_hspace (hd (replaceAll m_hspaces [0x20] prev s)) = is_hspace (hd s))"
proof (cases s)
  case Nil
  then show ?thesis by (simp add: replaceAll_Nil m_hspaces_def)
next
  case (Cons c cs)
  show ?thesis
  proof (cases "m_hspaces prev s")
    case None
    then show ?thesis using Cons by (simp add: replaceAll_no_match)
  next
    case (Some n)
    then have n: "2 \<le> n" by (auto simp: m_hspaces_def Let_def split: if_splits)
    have "m_hspaces prev (c # cs) \<noteq> None" using Some Cons by simp
    then have hc: "is_hspace c" using m_hspaces_Cons[of prev c cs] by blast
    have "replaceAll m_hspaces [0x20] prev s =
            [0x20] @ replaceAll m_hspaces [0x20] (Some (s ! (min n (length s) - 1))) (drop n s)"
      using Some n Cons by (subst replaceAll.simps) simp
    then show ?thesis using hc Cons by (simp add: is_hspace_def)
  qed
qed

lemma collapse_clean: "\<not> occurs m_hspaces p (replaceAll m_hspaces [0x20] prev s)"
proof (induction m_hspaces "[0x20::nat]" prev s arbitrary: p rule: replaceAll.induct)
  case (1 prev s)
  show ?case
  proof (cases s)
    case Nil
    then show ?thesis by (simp add: replaceAll_Nil m_hspaces_def)
  next
    case (Cons c cs)
    show ?thesis
    proof (cases "m_hspaces prev s")
      case None
      then have "\<not> (is_hspace c \<and> cs \<noteq> [] \<and> is_hspace (hd cs))"
        using m_hspaces_Cons[of prev c cs] Cons by simp
      moreover from 1(1)[OF None Cons]
      have "\<not> occurs m_hspaces (Some c) (replaceAll m_hspaces [0x20] (Some c) cs)" .
      ultimately show ?thesis
        using None Cons collapse_head[of "Some c" cs]
        by (auto simp: replaceAll_no_match occurs_hspaces_Cons[where q = "Some c"] simp del: occurs.simps)
    next
      case (Some n)
      then have n: "n = length (takeWhile is_hspace s)" "2 \<le> n"
        by (auto simp: m_hspaces_def Let_def split: if_splits)
      then have d: "drop n s = dropWhile is_hspace s"
        by (simp add: dropWhile_eq_drop)
      let ?r = "replaceAll m_hspaces [0x20] (Some (s ! (min n (length s) - 1))) (drop n s)"
      from n(2) Cons have "\<not> (n = 0 \<or> s = [])" by simp
      from 1(3)[OF Some this] have ih: "\<not> occurs m_hspaces (Some 0x20) ?r" .
      have nh: "drop n s \<noteq> [] \<longrightarrow> \<not> is_hspace (hd (drop n s))"
        unfolding d using hd_dropWhile[of is_hspace s] by blast
      have "\<not> (?r \<noteq> [] \<and> is_hspace (hd ?r))"
        using collapse_head[of "Some (s ! (min n (length s) - 1))" "drop n s"] nh by auto
      moreover have "replaceAll m_hspaces [0x20] prev s = 0x20 # ?r"
        using Some n(2) Cons by (subst replaceAll.simps) simp
      ultimately show ?thesis using ih
        by (simp add: occurs_hspaces_Cons[where q = "Some 0x20"] del: occurs.simps)
    qed
  qed
qed

lemma occurs_hspaces_prefix: "occurs m_hspaces q u \<Longrightarrow> occurs m_hspaces p (a @ u)"
proof (induction a arbitrary: p)
  case Nil
  then show ?case by (cases u) (simp_all add: m_hspaces_def)
next
  case (Cons c a)
  then show ?case by (simp add: occurs_hspaces_Cons[where q = "Some c"] del: occurs.simps)
qed

lemma occurs_hspaces_suffix: "occurs m_hspaces p u \<Longrightarrow> occurs m_hspaces p (u @ b)"
proof (induction u arbitrary: p)
  case Nil
  then show ?case by (simp add: m_hspaces_def)
next
  case (Cons c u)
  then show ?case
    by (cases u) (auto simp: occurs_hspaces_Cons[where q = "Some c"] simp del: occurs.simps)
qed

lemma trim_segment: "\<exists>a b. s = a @ trim s @ b"
proof -
  let ?v = "dropWhile is_space s"
  have 1: "s = takeWhile is_space s @ ?v" by simp
  have "rev (takeWhile is_space (rev ?v) @ dropWhile is_space (rev ?v)) = ?v"
    by (simp only: takeWhile_dropWhile_id rev_rev_ident)
  then have 2: "?v = trim s @ rev (takeWhile is_space (rev ?v))"
    by (simp only: rev_append trim_def)
  from 1 2 have "s = takeWhile is_space s @ trim s @ rev (takeWhile is_space (rev ?v))"
    by simp
  then show ?thesis by blast
qed

lemma trim_clean: "\<not> occurs m_hspaces p s \<Longrightarrow> \<not> occurs m_hspaces q (trim s)"
proof
  assume a: "\<not> occurs m_hspaces p s" and b: "occurs m_hspaces q (trim s)"
  obtain x y where s: "s = x @ trim s @ y" using trim_segment by blast
  from b have "occurs m_hspaces q (trim s @ y)" by (rule occurs_hspaces_suffix)
  then have "occurs m_hspaces p (x @ trim s @ y)" by (rule occurs_hspaces_prefix)
  with s a show False by simp
qed

lemma dropWhile_rev_dropWhile:
  "dropWhile P (rev (dropWhile P (rev (dropWhile P s)))) = rev (dropWhile P (rev (dropWhile P s)))"
proof -
  let ?v = "dropWhile P s"
  let ?u = "rev (dropWhile P (rev ?v))"
  show "dropWhile P ?u = ?u"
  proof (cases "?u = []")
    case True
    show ?thesis unfolding True by simp
  next
    case False
    have "?v = ?u @ rev (takeWhile P (rev ?v))"
      by (metis rev_append rev_rev_ident takeWhile_dropWhile_id)
    with False have "hd ?u = hd ?v" by (metis hd_append2)
    moreover have "?v \<noteq> []"
    proof
      assume e: "?v = []"
      have "?u = []" unfolding e by simp
      with False show False ..
    qed
    then have "\<not> P (hd ?v)" by (rule hd_dropWhile)
    ultimately show ?thesis using False by (simp add: dropWhile_eq_self_iff)
  qed
qed

lemma trim_idem: "trim (trim s) = trim s"
  by (simp add: trim_def dropWhile_rev_dropWhile)

lemma collapse_runs_replaceAll: "replaceAll m_hspaces [0x20] p s = collapse_runs s"
proof (induction s arbitrary: p rule: collapse_runs.induct)
  case 1
  show ?case by (simp add: replaceAll_Nil m_hspaces_def)
next
  case (2 c cs)
  show ?case
  proof (cases "is_hspace c \<and> cs \<noteq> [] \<and> is_hspace (hd cs)")
    case True
    then obtain n where n: "m_hspaces p (c # cs) = Some n"
      using m_hspaces_Cons[of p c cs] by auto
    then have n2: "n = length (takeWhile is_hspace (c # cs))" "2 \<le> n"
      by (auto simp: m_hspaces_def Let_def split: if_splits)
    then have "drop n (c # cs) = dropWhile is_hspace (c # cs)"
      by (simp only: dropWhile_eq_drop)
    with True have d: "drop n (c # cs) = dropWhile is_hspace cs" by simp
    have "replaceAll m_hspaces [0x20] p (c # cs) =
            [0x20] @ replaceAll m_hspaces [0x20]
               (Some ((c # cs) ! (min n (Suc (length cs)) - 1))) (drop n (c # cs))"
      using n n2(2) by (intro replaceAll_match) simp_all
    then show ?thesis using True 2(1)[OF True] d by simp
  next
    case False
    then have "m_hspaces p (c # cs) = None" using m_hspaces_Cons[of p c cs] by auto
    then show ?thesis using False 2(2)[OF False] by (auto simp: replaceAll_no_match)
  qed
qed

section \<open>Outbound text extraction\<close>

lemmas text_eval =
  asc_def trim_def is_space_def nonblank_str_def trimmed_def or_else_def
  find_text_part_def part_value_def legacy_content_def legacy_body_def

lemma legacy_content_undef [simp]: "legacy_content JUndef = None"
  by (simp add: legacy_content_def)

lemma legacy_content_empty [simp]: "legacy_content (JObj []) = None"
  by (simp add: legacy_content_def)

lemma nonblank_undef [simp]: "\<not> nonblank_str JUndef"
  by (simp add: nonblank_str_def)

lemma nonblank_arr [simp]: "\<not> nonblank_str (JArr xs)"
  by (simp add: nonblank_str_def)

lemma nonblank_truthy: "nonblank_str v \<Longrightarrow> truthy v"
  by (cases v) (auto simp: nonblank_str_def trim_def)

lemma extract_candidates:
  "body \<noteq> JNull \<Longrightarrow> extractUserText body = Inr (first_nonblank (candidates body))"
  by (cases "legacy_content body")
     (auto simp: extractUserText_def candidates_def first_nonblank_def Let_def
           split: json.splits)

lemma first_nonblank_append:
  "first_nonblank (xs @ ys) =
     (if \<exists>x \<in> set xs. nonblank_str x then first_nonblank xs else first_nonblank ys)"
  by (induction xs) (auto simp: first_nonblank_def)

lemma part_value_spec:
  "nonblank_str (part_value parts) \<or>
     \<not> (nonblank_str (oget (oget (find_text_part parts) (asc ''text'')) (asc ''value'')) \<or>
         nonblank_str (oget (find_text_part parts) (asc ''text'')) \<or>
         nonblank_str (oget (find_text_part parts) (asc ''value''))) \<Longrightarrow>
   first_nonblank [oget (oget (find_text_part parts) (asc ''text'')) (asc ''value''),
                   oget (find_text_part parts) (asc ''text''),
                   oget (find_text_part parts) (asc ''value'')] =
   first_nonblank [part_value parts]"
  using nonblank_truthy
  by (auto simp: part_value_def or_else_def first_nonblank_def Let_def)

lemma candidates_spec:
  assumes "nonblank_str (last (candidates body)) \<or>
           \<not> (\<exists>c \<in> set (drop 5 (spec_candidates body)). nonblank_str c)"
  shows "first_nonblank (spec_candidates body) = first_nonblank (candidates body)"
proof -
  define content where "content = (case legacy_content body of Some c \<Rightarrow> c | None \<Rightarrow> JUndef)"
  define pre where "pre = [oget body (asc ''text''), oget body (asc ''message''),
                           oget body (asc ''input''), content, oget content (asc ''text'')]"
  define t where "t = (case content of JArr parts \<Rightarrow> find_text_part parts | _ \<Rightarrow> JUndef)"
  define tl3 where "tl3 = [oget (oget t (asc ''text'')) (asc ''value''), oget t (asc ''text''),
                           oget t (asc ''value'')]"
  define v where "v = (case content of JArr parts \<Rightarrow> part_value parts | _ \<Rightarrow> JUndef)"
  have s: "spec_candidates body = pre @ tl3"
    by (simp add: spec_candidates_def pre_def tl3_def t_def content_def Let_def)
  have c: "candidates body = pre @ [v]"
    by (simp add: candidates_def pre_def v_def content_def Let_def)
  from assms have a: "nonblank_str v \<or> \<not> (\<exists>c \<in> set tl3. nonblank_str c)"
    unfolding s c by (simp add: pre_def)
  have "first_nonblank tl3 = first_nonblank [v]"
  proof (cases content)
    case (JArr parts)
    with a show ?thesis
      using part_value_spec[of parts] by (simp add: tl3_def t_def v_def)
  qed (simp_all add: tl3_def t_def v_def first_nonblank_def)
  then show ?thesis unfolding s c by (simp add: first_nonblank_append)
qed

text \<open>
  C2, as amended. For a body other than \<open>null\<close>, extractUserText returns the first
  candidate that is a string with something left after trimming, trimmed, among: the
  fields text, message, input, the legacy content itself, its text field, and the first
  truthy one of \<open>.text.value\<close>, \<open>.text\<close>, \<open>.value\<close> of the first part typed "text"; the
  empty string when there is none. Whenever that truthy value is such a string, or none
  of the three is, this is the priority order of the specification.
\<close>

theorem extractUserText_priority:
  "body \<noteq> JNull \<Longrightarrow>
     extractUserText body = Inr (first_nonblank (candidates body)) \<and>
     (nonblank_str (last (candidates body)) \<or>
        \<not> (\<exists>c \<in> set (drop 5 (spec_candidates body)). nonblank_str c) \<longrightarrow>
      extractUserText body = Inr (extractUserText_spec body))"
  using extract_candidates[of body] candidates_spec[of body]
  by (simp add: extractUserText_spec_def)

theorem extractUserText_priority_witness:
  "text_part_body \<noteq> JNull \<and> nonblank_str (last (candidates text_part_body)) \<and>
   extractUserText text_part_body = Inr (asc ''hi'') \<and>
   extractUserText_spec text_part_body = asc ''hi''"
proof -
  have n: "text_part_body \<noteq> JNull" by (simp add: text_part_body_def legacy_body_def)
  have l: "last (candidates text_part_body) = JStr (asc '' hi '')"
    by (simp add: text_part_body_def candidates_def text_eval)
  have nb: "nonblank_str (last (candidates text_part_body))"
    unfolding l by (simp add: text_eval)
  have v: "first_nonblank (candidates text_part_body) = asc ''hi''"
    by (simp add: text_part_body_def candidates_def first_nonblank_def text_eval)
  have t: "extractUserText text_part_body = Inr (first_nonblank (candidates text_part_body))"
    "extractUserText text_part_body = Inr (extractUserText_spec text_part_body)"
    using extractUserText_priority[OF n] nb by blast+
  from t(1) have "extractUserText text_part_body = Inr (asc ''hi'')"
    unfolding v .
  moreover from t(2)[symmetric] t(1)[unfolded v]
  have "Inr (extractUserText_spec text_part_body) = (Inr (asc ''hi'') :: exn + jstring)"
    by (rule trans)
  then have "extractUserText_spec text_part_body = asc ''hi''"
    by (rule Inr_inject)
  ultimately have "extractUserText text_part_body = Inr (asc ''hi'') \<and>
      extractUserText_spec text_part_body = asc ''hi''" ..
  with n nb show ?thesis by blast
qed

text \<open>
  The claim as stated fails where the first truthy value of the three is a string of
  white space and a later one has text: the code returns the empty string.
\<close>

theorem extractUserText_blank_value_counterexample:
  "extractUserText blank_value_body = Inr [] \<and>
   extractUserText_spec blank_value_body = asc ''hi'' \<and>
   extractUserText blank_value_body \<noteq> Inr (extractUserText_spec blank_value_body)"
proof -
  have a: "extractUserText blank_value_body = Inr []"
    by (simp add: blank_value_body_def extractUserText_def text_eval)
  have b: "extractUserText_spec blank_value_body = asc ''hi''"
    by (simp add: blank_value_body_def extractUserText_spec_def spec_candidates_def
        first_nonblank_def text_eval)
  show ?thesis unfolding a b by (simp add: asc_def)
qed

section \<open>The proxy endpoints\<close>

lemmas handler_defs =
  api_threads_runs_def api_append_message_def api_start_run_def api_run_status_def
  api_messages_def

lemmas proxy_eval =
  thread_request_def world_of_def relay_def or_else_def asc_def is_high_def is_low_def
  reply_ok_def






lemma blank_text_trim: "blank_text v \<Longrightarrow> trim (to_string (or_else v (JStr []))) = []"
  by (cases v) (auto simp: blank_text_def or_else_def trim_def)

lemma absent_falsy: "absent_or_empty v \<Longrightarrow> \<not> truthy v"
  by (auto simp: absent_or_empty_def)

lemma oget_or_empty: "oget (or_else req (JObj [])) k = oget req k"
  by (cases req) (auto simp: or_else_def)

text \<open>
  C9, as amended. On every endpoint a request whose required identifier is absent or
  the empty string, or whose text is absent or blank (for threads-runs: no candidate has
  text), is answered 400 with no call at all: neither the credential nor upstream.
\<close>

theorem proxy_missing_field:
  "(req \<noteq> JNull \<and> first_nonblank (candidates req) = [] \<longrightarrow>
      proxy ThreadsRuns w req = (bad_request ''Missing text'', [])) \<and>
   (absent_or_empty (oget req (asc ''threadId'')) \<or> blank_text (oget req (asc ''content'')) \<longrightarrow>
      proxy AppendMessage w req = (bad_request ''Missing fields'', [])) \<and>
   (absent_or_empty (oget req (asc ''threadId'')) \<longrightarrow>
      proxy StartRun w req = (bad_request ''Missing threadId'', [])) \<and>
   (absent_or_empty (oget req (asc ''threadId'')) \<or> absent_or_empty (oget req (asc ''runId'')) \<longrightarrow>
      proxy RunStatus w req = (bad_request ''Missing ids'', [])) \<and>
   (absent_or_empty (oget req (asc ''threadId'')) \<longrightarrow>
      proxy Messages w req = (bad_request ''Missing threadId'', []))"
  using extract_candidates[of req] blank_text_trim absent_falsy
  by (auto simp: handler_defs Let_def oget_or_empty)

theorem proxy_missing_field_witness:
  "JObj [(asc ''content'', JStr (asc '' ''))] \<noteq> JNull \<and>
   first_nonblank (candidates (JObj [(asc ''content'', JStr (asc '' ''))])) = [] \<and>
   absent_or_empty (oget (JObj [(asc ''content'', JStr (asc '' ''))]) (asc ''threadId'')) \<and>
   proxy ThreadsRuns (world_of 200 None) (JObj [(asc ''content'', JStr (asc '' ''))]) =
     (bad_request ''Missing text'', []) \<and>
   proxy AppendMessage (world_of 200 None) (JObj [(asc ''content'', JStr (asc '' ''))]) =
     (bad_request ''Missing fields'', []) \<and>
   proxy StartRun (world_of 200 None) (JObj [(asc ''content'', JStr (asc '' ''))]) =
     (bad_request ''Missing threadId'', []) \<and>
   proxy RunStatus (world_of 200 None) (JObj [(asc ''content'', JStr (asc '' ''))]) =
     (bad_request ''Missing ids'', []) \<and>
   proxy Messages (world_of 200 None) (JObj [(asc ''content'', JStr (asc '' ''))]) =
     (bad_request ''Missing threadId'', [])"
proof -
  let ?r = "JObj [(asc ''content'', JStr (asc '' ''))]"
  have a: "?r \<noteq> JNull" by simp
  have b: "first_nonblank (candidates ?r) = []"
    by (simp add: candidates_def first_nonblank_def text_eval)
  have c: "absent_or_empty (oget ?r (asc ''threadId''))"
    by (simp add: absent_or_empty_def asc_def)
  from proxy_missing_field[of ?r "world_of 200 None"] a b c show ?thesis by blast
qed

text \<open>
  The claim as stated fails for an identifier of white space only: it is truthy, so the
  request goes on to the credential and upstream.
\<close>

theorem proxy_blank_identifier_counterexample:
  "blank_text (oget (thread_request (asc '' '')) (asc ''threadId'')) \<and>
   snd (proxy StartRun (world_of 200 (Some (JObj []))) (thread_request (asc '' ''))) =
     [GetAccessToken, Fetch (PostRun (JStr (asc '' '')))] \<and>
   res_status (fst (proxy StartRun (world_of 200 (Some (JObj []))) (thread_request (asc '' '')))) = 200"
  by (simp add: api_start_run_def proxy_eval projectRun_def blank_text_def trim_def
      is_space_def)

text \<open>
  C10. A message whose first text part holds a value that is truthy and not a string (the
  number 5) matches none of the recognised shapes, yet its text is not the empty string:
  stripAgentCitations throws on it and the whole request is answered 500.
\<close>

theorem messages_number_value_fails:
  "message_text (JArr [JObj [(asc ''type'', JStr (asc ''text'')),
                             (asc ''text'', JObj [(asc ''value'', JNum 5)])]]) = JNum 5 \<and>
   projectMsgList number_valued_messages = Inl TypeError \<and>
   proxy Messages (world_of 200 (Some number_valued_messages)) (thread_request (asc ''t'')) =
     (server_error, [GetAccessToken, Fetch (GetMessages (JStr (asc ''t'')))])"
  by (simp add: api_messages_def proxy_eval projectMsgList_def number_valued_messages_def
      project_message_def message_text_def find_text_part_def stripAgentCitations_def)

section \<open>The polling loop\<close>









section \<open>Choosing the reply to render\<close>






lemmas message_eval =
  assistant_message_def user_message_def text_content_def is_assistant_def or_else_def
  lower_def timestamp_def created_num_def asc_def



section \<open>Feedback marker detection\<close>

lemmas re_eval =
  asc_def trim_def is_space_def is_hspace_def is_word_def boundary_def canon_def lit_ci_def
  spaces_def separator_def phrase_rest_def m_phrase_def phrase_to_eol_def m_line_def
  m_hspaces_def m_newlines_def normalise_def stripFeedbackPrompt_def has_marker_def
  replaceAll.simps

lemma canon_idem [simp]: "canon (canon c) = canon c"
  by (auto simp: canon_def)

lemma is_space_canon [simp]: "is_space (canon c) = is_space c"
  by (auto simp: canon_def is_space_def)

lemma is_word_canon [simp]: "is_word (canon c) = is_word c"
  by (auto simp: canon_def is_word_def)

























lemma feedback_scenario:
  "stripFeedbackPrompt (asc ''Great, thanks!'' @ [0x0A, 0x0A] @ asc ''feedback 1 to 5 please'') =
     \<lparr>cleaned = asc ''Great, thanks!'', found = True\<rparr>"
  by (simp add: re_eval)

lemma feedback_nested_remains:
  "stripFeedbackPrompt (asc ''feedback 1-feedback 1-'' @ [0x0A] @ asc ''feedback 1-5'' @ [0x0A] @
       asc ''5 5'') = \<lparr>cleaned = asc ''feedback 1- 5'', found = True\<rparr>"
  by (simp add: re_eval)

section \<open>Citation stripping\<close>

lemma strip_fixpoint:
  "stripAgentCitations_str (stripAgentCitations_str x) = stripAgentCitations_str x"
proof -
  let ?A = "replaceAll m_citation [] None"
  let ?B = "replaceAll m_hspaces [0x20] None"
  let ?y = "trim (?B (?A x))"
  have "\<not> occurs m_citation None (brk (?A x))"
    using citation_gone[of None None x] occurs_citation_brk[of None "?A x" None] by simp
  then have "\<not> occurs m_citation None (brk ?y)" by (simp add: brk_trim brk_collapse)
  then have "\<not> occurs m_citation None ?y" using occurs_citation_brk[of None ?y None] by simp
  then have a: "?A ?y = ?y" by (rule replaceAll_absent)
  have "\<not> occurs m_hspaces None (?B (?A x))" by (rule collapse_clean)
  then have "\<not> occurs m_hspaces None ?y" by (rule trim_clean)
  then have b: "?B ?y = ?y" by (rule replaceAll_absent)
  show ?thesis unfolding stripAgentCitations_str_def a b trim_idem ..
qed

lemma no_open_bracket_absent: "0x3010 \<notin> set s \<Longrightarrow> \<not> occurs m_citation p s"
  by (induction s arbitrary: p) (auto simp: occurs_citation_Cons occurs_citation_Nil simp del: occurs.simps)

lemma strip_plain:
  "0x3010 \<notin> set x \<Longrightarrow> stripAgentCitations_str x = trim (collapse_runs x)"
  by (simp add: stripAgentCitations_str_def replaceAll_absent[OF no_open_bracket_absent]
      collapse_runs_replaceAll)

text \<open>
  C6. Stripping citations is idempotent, and on a text that holds neither U+3010 nor
  U+3011 it is the text with every run of two or more spaces and tabs collapsed to one
  space, trimmed.
\<close>

theorem stripAgentCitations_idempotent:
  "stripAgentCitations_str (stripAgentCitations_str x) = stripAgentCitations_str x \<and>
   (0x3010 \<notin> set x \<and> 0x3011 \<notin> set x \<longrightarrow>
      stripAgentCitations_str x = trim (collapse_runs x))"
  using strip_fixpoint strip_plain by blast

theorem stripAgentCitations_idempotent_witness:
  "stripAgentCitations_str (stripAgentCitations_str [0x61, 0x20, 0x09, 0x20, 0x62, 0x20]) =
     stripAgentCitations_str [0x61, 0x20, 0x09, 0x20, 0x62, 0x20] \<and>
   0x3010 \<notin> set [0x61, 0x20, 0x09, 0x20, 0x62, 0x20::nat] \<and>
   0x3011 \<notin> set [0x61, 0x20, 0x09, 0x20, 0x62, 0x20::nat] \<and>
   stripAgentCitations_str [0x61, 0x20, 0x09, 0x20, 0x62, 0x20] =
     trim (collapse_runs [0x61, 0x20, 0x09, 0x20, 0x62, 0x20])"
proof -
  have n: "0x3010 \<notin> set [0x61, 0x20, 0x09, 0x20, 0x62, 0x20::nat] \<and>
           0x3011 \<notin> set [0x61, 0x20, 0x09, 0x20, 0x62, 0x20::nat]"
    by simp
  from stripAgentCitations_idempotent[of "[0x61, 0x20, 0x09, 0x20, 0x62, 0x20]"] n
  show ?thesis by blast
qed

section \<open>The turn lock\<close>

lemma remove_last_snoc [simp]: "remove_last x (xs @ [x]) = xs"
  by (simp add: remove_last_def)










lemma after_click_sending [simp]: "sending (after_click f c) = sending c"
  by (simp add: after_click_def)








section \<open>The rating form\<close>

lemma marker_strip:
  "stripFeedbackPrompt (extractAssistantText marker_message) =
     \<lparr>cleaned = asc ''Done.'', found = True\<rparr>"
  by (simp add: marker_message_def extractAssistantText_def take_item_def is_str_def str_of_def
        message_eval re_eval)

lemma marker_render_message:
  "render_message marker_message c =
     (if pendingFeedback c then addMsg (AssistantBubble (asc ''Done.'')) c
      else (addMsg (RatingForm (forms c))
              ((addMsg (AssistantBubble (asc ''Done.'')) c)\<lparr>pendingFeedback := True\<rparr>))
           \<lparr>forms := Suc (forms c)\<rparr>)"
proof -
  have "asc ''Done.'' \<noteq> []" by (simp add: asc_def)
  then show ?thesis
    by (simp add: render_message_def marker_strip renderFeedbackPrompt_def addMsg_def)
qed

lemma marker_render:
  "renderLatestAssistant engine marker_list c = Inr (render_message marker_message c)"
proof -
  have a: "is_assistant marker_message" "marker_message \<noteq> JNull" "marker_message \<noteq> JUndef"
    by (simp_all add: marker_message_def message_eval)
  have "items_of marker_list = Items [marker_message]"
    by (simp add: items_of_def marker_list_def or_else_def asc_def)
  moreover have "select_latest engine [marker_message] = Inr (Some marker_message)"
    using a by (simp add: select_latest_def sort_newest_first_def)
  ultimately show ?thesis by (simp add: renderLatestAssistant_def)
qed

lemma marker_finish:
  "finish_turn engine marker_net tx c =
     Done ((render_message marker_message
             (hideTyping (c\<lparr>threadId := (if truthy (threadId c) then threadId c
                                          else JStr (asc ''t''))\<rparr>)))\<lparr>sending := False\<rparr>,
           (if truthy (threadId c) then [DoAppendMessage tx, DoStartRun]
            else [DoCreateThreadAndRun tx]) @ [DoListThreadMessages])"
proof -
  have s: "start_run marker_net tx c =
      (Inr (JStr (asc ''r''), JStr (asc ''completed'')),
       c\<lparr>threadId := (if truthy (threadId c) then threadId c else JStr (asc ''t''))\<rparr>,
       (if truthy (threadId c) then [DoAppendMessage tx, DoStartRun]
            else [DoCreateThreadAndRun tx]))"
    by (simp add: start_run_def marker_net_def or_else_def asc_def)
  have p: "poll (JStr (asc ''completed'')) (polled marker_net) = Some (Inr (JStr (asc ''completed'')), 0)"
    by (simp add: is_terminal_def)
  have l: "listed marker_net = Inr marker_list" by (simp add: marker_net_def)
  show ?thesis
    by (simp add: finish_turn_def turn_try_def s p l marker_render Let_def del: poll.simps)
qed

lemmas trace_eval =
  fresh_session_def fresh_client_def call_sendMessage_def begin_turn_def showTyping_def addMsg_def
  hideTyping_def remove_last_def after_click_def stars_text_def
  shouldSkipUserBubble_def feedback_command_def c2w_rest_def open_forms_def
  lit_ci_def canon_def spaces_def is_space_def boundary_def is_word_def trim_def asc_def

lemma render_message_pending:
  "pendingFeedback c \<Longrightarrow>
     render_message m c =
       (if cleaned (stripFeedbackPrompt (extractAssistantText m)) \<noteq> []
        then addMsg (AssistantBubble (cleaned (stripFeedbackPrompt (extractAssistantText m)))) c
        else c) \<and>
     open_forms (render_message m c) = open_forms c"
  by (simp add: render_message_def Let_def addMsg_def open_forms_def)

lemma render_message_one_form: "open_forms (render_message m c) \<le> Suc (open_forms c)"
  by (simp add: render_message_def Let_def addMsg_def open_forms_def renderFeedbackPrompt_def)

text \<open>
  C7. Two rating forms are open at the end of this session: the second click on a star
  finds \<open>sending\<close> true, so its handler removes the form and clears the flag at once; the
  reply to the turn of the first click opens a form, and the handler of the first click
  then clears the flag under it; the next reply with the marker opens one more.
\<close>

theorem double_click_two_forms:
  "map_option (\<lambda>s. (open_forms (ui s), pendingFeedback (ui s), sending (ui s)))
     (run engine double_click_trace fresh_session) = Some (2, True, False)"
  by (simp add: double_click_trace_def marker_finish marker_render_message trace_eval)

end
